theory Spec2Isabelle
  imports Complex_Main "HOL-Library.Sublist"
begin

section \<open>Values, exceptions and the outside world\<close>

text \<open>
  The script \<^verbatim>\<open>update_abuseipdb_asns.py\<close> handles values decoded from JSON (the two HTTP
  APIs) and from YAML (the rules file). They are modelled by one datatype of Python
  values. A number is its exact value, so that an integer and a finite float that Python
  compares equal are the same number; a string is a list of characters; a dict is an
  association list in insertion order, looked up from the left.
\<close>

datatype pyval =
    PNone
  | PBool bool
  | PNum rat
  | PStr string
  | PList "pyval list"
  | PDict "(pyval \<times> pyval) list"

text \<open>
  The exceptions the script can meet. The first handler of \<^verbatim>\<open>fetch_abuseipdb_asns\<close>
  catches \<^verbatim>\<open>requests.exceptions.RequestException\<close>, the second every other
  \<^verbatim>\<open>Exception\<close>.
\<close>

datatype py_exn =
    RequestException
  | ValueError
  | TypeError
  | KeyError
  | AttributeError
  | FileNotFoundError
  | YAMLError

text \<open>
  What the script reads of a \<^verbatim>\<open>requests.Response\<close>: the status code, the text, and the
  outcome of \<^verbatim>\<open>response.json()\<close>, which raises when the body is not JSON.
\<close>

record response =
  status_code :: int
  text' :: string
  json :: "py_exn + pyval"

text \<open>
  The three HTTP calls of the script, each with the credential it puts in its headers:
  the blacklist query, the listing of a zone's rulesets, and the deletion of one ruleset
  of a zone.
\<close>

datatype request =
    GET_blacklist string
  | GET_rulesets string string
  | DELETE_ruleset string string pyval

text \<open>
  The environment of a run: the two environment variables, and the remote side, which
  answers a request given all requests sent before it (so it may keep state); an answer
  is a response or the exception that \<^verbatim>\<open>requests.get\<close> or \<^verbatim>\<open>requests.delete\<close> raises.
\<close>

record env =
  ABUSEIPDB_API_KEY :: "string option"
  CLOUDFLARE_API_TOKEN :: "string option"
  server :: "request list \<Rightarrow> request \<Rightarrow> py_exn + response"

text \<open>Every \<^verbatim>\<open>print\<close> of the script is one event; the arguments are the formatted values.\<close>

datatype log_event =
    L_no_api_key
  | L_attempting
  | L_call_successful
  | L_received nat
  | L_top_countries
  | L_country pyval nat
  | L_combining
  | L_high_risk
  | L_using nat
  | L_empty_data
  | L_rate_limit
  | L_fallback_protection
  | L_auth_failed
  | L_api_error int
  | L_response string
  | L_network_error py_exn
  | L_unexpected_error py_exn
  | L_fallback
  | L_added nat
  | L_no_asn_data
  | L_no_token_warning
  | L_fetch_error string int
  | L_deleted pyval
  | L_delete_failed pyval int
  | L_skip_cleanup
  | L_cleaning_up
  | L_zone string string
  | L_no_custom
  | L_found nat
  | L_ruleset pyval pyval
  | L_deleting pyval
  | L_skipping pyval

text \<open>
  The state a run changes: the requests sent so far, the lines printed so far, and the
  rules file, held as what \<^verbatim>\<open>open\<close> followed by \<^verbatim>\<open>yaml.safe_load\<close> gives for it (the
  document, or the exception of a missing or unparsable file). Printing and the final
  write of the file are taken to succeed.
\<close>

record state =
  sent :: "request list"
  printed :: "log_event list"
  rules_yaml :: "py_exn + pyval"

definition print :: "log_event \<Rightarrow> state \<Rightarrow> state" where
  "print e st = st\<lparr>printed := printed st @ [e]\<rparr>"

definition http :: "env \<Rightarrow> request \<Rightarrow> state \<Rightarrow> (py_exn + response) \<times> state" where
  "http env req st = (server env (sent st) req, st\<lparr>sent := sent st @ [req]\<rparr>)"

section \<open>Python operations on values\<close>

fun startswith :: "string \<Rightarrow> string \<Rightarrow> bool" where
  "startswith s [] = True"
| "startswith [] (c # cs) = False"
| "startswith (d # ds) (c # cs) = (d = c \<and> startswith ds cs)"

text \<open>\<^verbatim>\<open>sub in s\<close> on two strings.\<close>

fun str_contains :: "string \<Rightarrow> string \<Rightarrow> bool" where
  "str_contains sub [] = (sub = [])"
| "str_contains sub (c # cs) = (startswith (c # cs) sub \<or> str_contains sub cs)"

text \<open>
  \<^verbatim>\<open>s in v\<close> for a string literal \<open>s\<close>: a substring test on a string, membership on a list,
  key membership on a dict, \<^verbatim>\<open>TypeError\<close> on anything else.
\<close>

fun py_in :: "string \<Rightarrow> pyval \<Rightarrow> py_exn + bool" where
  "py_in s (PStr t) = Inr (str_contains s t)"
| "py_in s (PList xs) = Inr (PStr s \<in> set xs)"
| "py_in s (PDict kvs) = Inr (PStr s \<in> set (map fst kvs))"
| "py_in s v = Inl TypeError"

text \<open>\<^verbatim>\<open>v[s]\<close> for a string literal \<open>s\<close>.\<close>

fun py_getitem :: "pyval \<Rightarrow> string \<Rightarrow> py_exn + pyval" where
  "py_getitem (PDict kvs) s =
     (case map_of kvs (PStr s) of None \<Rightarrow> Inl KeyError | Some v \<Rightarrow> Inr v)"
| "py_getitem v s = Inl TypeError"

text \<open>\<^verbatim>\<open>v.get(s, d)\<close> for a string literal \<open>s\<close>: only a dict has the method.\<close>

fun py_get :: "pyval \<Rightarrow> string \<Rightarrow> pyval \<Rightarrow> py_exn + pyval" where
  "py_get (PDict kvs) s d = (case map_of kvs (PStr s) of None \<Rightarrow> Inr d | Some v \<Rightarrow> Inr v)"
| "py_get v s d = Inl AttributeError"

fun py_len :: "pyval \<Rightarrow> py_exn + nat" where
  "py_len (PStr t) = Inr (length t)"
| "py_len (PList xs) = Inr (length xs)"
| "py_len (PDict kvs) = Inr (length kvs)"
| "py_len v = Inl TypeError"

text \<open>The elements a \<^verbatim>\<open>for\<close> loop or a comprehension draws from a value.\<close>

fun py_iter :: "pyval \<Rightarrow> py_exn + pyval list" where
  "py_iter (PStr t) = Inr (map (\<lambda>c. PStr [c]) t)"
| "py_iter (PList xs) = Inr xs"
| "py_iter (PDict kvs) = Inr (map fst kvs)"
| "py_iter v = Inl TypeError"

text \<open>\<^verbatim>\<open>d[s] = v\<close> on a dict: an existing key keeps its place, a new key goes last.\<close>

fun dict_set :: "(pyval \<times> pyval) list \<Rightarrow> pyval \<Rightarrow> pyval \<Rightarrow> (pyval \<times> pyval) list" where
  "dict_set [] k v = [(k, v)]"
| "dict_set ((k', v') # kvs) k v =
     (if k' = k then (k', v) # kvs else (k', v') # dict_set kvs k v)"

text \<open>Lists and dicts cannot be dict keys.\<close>

fun hashable :: "pyval \<Rightarrow> bool" where
  "hashable (PList xs) = False"
| "hashable (PDict kvs) = False"
| "hashable v = True"

text \<open>Equality of dict keys: \<^verbatim>\<open>True\<close> is the number 1 and \<^verbatim>\<open>False\<close> the number 0.\<close>

fun key_eq :: "pyval \<Rightarrow> pyval \<Rightarrow> bool" where
  "key_eq (PBool b) (PNum n) = (n = (if b then 1 else 0))"
| "key_eq (PNum n) (PBool b) = (n = (if b then 1 else 0))"
| "key_eq a b = (a = b)"

text \<open>\<^verbatim>\<open>str\<close> of an integer, and \<^verbatim>\<open>sep.join\<close>.\<close>

definition digit :: "nat \<Rightarrow> char" where
  "digit n = ''0123456789'' ! n"

function str_nat :: "nat \<Rightarrow> string" where
  "str_nat n = (if n < 10 then [digit n] else str_nat (n div 10) @ [digit (n mod 10)])"
  by pat_completeness auto
termination
  by (relation "measure id") auto

declare str_nat.simps [simp del]

definition str :: "int \<Rightarrow> string" where
  "str i = (if i < 0 then CHR ''-'' # str_nat (nat (- i)) else str_nat (nat i))"

fun join :: "string \<Rightarrow> string list \<Rightarrow> string" where
  "join sep [] = []"
| "join sep [x] = x"
| "join sep (x # y # ys) = x @ sep @ join sep (y # ys)"

text \<open>
  \<^verbatim>\<open>str.lower\<close>. Only the letters A to Z change; no other character lowers to a letter of
  the words searched for below.
\<close>

definition lower_char :: "char \<Rightarrow> char" where
  "lower_char c =
     (case map_of (zip ''ABCDEFGHIJKLMNOPQRSTUVWXYZ'' ''abcdefghijklmnopqrstuvwxyz'') c of
        None \<Rightarrow> c
      | Some l \<Rightarrow> l)"

definition lower :: "string \<Rightarrow> string" where
  "lower s = map lower_char s"

section \<open>Configuration and the static catalog\<close>

definition MAX_ASNS :: nat where
  "MAX_ASNS = 50"

definition ZONE_IDS :: "(string \<times> string) list" where
  "ZONE_IDS =
     [(''homieyeng.top'', ''1791cd65881eb3caf7d1a3cb315342a5''),
      (''homieyang.dpdns.org'', ''42e0fad5233017cf842727c41ce3ef89'')]"

definition get_known_bad_asns :: "int list" where
  "get_known_bad_asns =
     [197695, 49505, 201776, 202425, 49392, 44812, 202422,
      49981, 60068, 44901, 51167, 200000,
      208091, 202448, 63949, 16276, 24940,
      45090, 37963,
      20473, 14061,
      9009, 35913,
      31034, 8100, 46844,
      40676, 53667,
      209605, 212238,
      29802,
      48693]"

section \<open>The intelligence fetcher\<close>

text \<open>
  \<^verbatim>\<open>country_stats[country] = country_stats.get(country, 0) + 1\<close>: the dict keeps the key
  that was inserted first.
\<close>

fun stats_incr :: "pyval \<Rightarrow> (pyval \<times> nat) list \<Rightarrow> (pyval \<times> nat) list" where
  "stats_incr c [] = [(c, 1)]"
| "stats_incr c ((k, n) # rest) =
     (if key_eq k c then (k, n + 1) # rest else (k, n) # stats_incr c rest)"

text \<open>The loop over the entries of the feed.\<close>

fun count_countries :: "pyval list \<Rightarrow> (pyval \<times> nat) list \<Rightarrow> py_exn + (pyval \<times> nat) list" where
  "count_countries [] country_stats = Inr country_stats"
| "count_countries (entry # entries) country_stats =
     (case py_get entry ''countryCode'' (PStr ''Unknown'') of
        Inl e \<Rightarrow> Inl e
      | Inr country \<Rightarrow>
          if hashable country
          then count_countries entries (stats_incr country country_stats)
          else Inl TypeError)"

text \<open>\<^verbatim>\<open>sorted(country_stats.items(), key=lambda x: x[1], reverse=True)[:10]\<close>, a stable sort.\<close>

definition sorted_countries :: "(pyval \<times> nat) list \<Rightarrow> (pyval \<times> nat) list" where
  "sorted_countries country_stats = take 10 (sort_key (\<lambda>x. - int (snd x)) country_stats)"

definition high_risk_countries :: "string list" where
  "high_risk_countries = [''RU'', ''CN'', ''KP'', ''IR'']"

definition high_risk_detected :: "(pyval \<times> nat) list \<Rightarrow> bool" where
  "high_risk_detected sc =
     list_ex (\<lambda>country. PStr country \<in> set (map fst (take 5 sc))) high_risk_countries"

text \<open>\<^verbatim>\<open>"data" in data and len(data["data"]) > 0\<close>, evaluated left to right.\<close>

definition has_data :: "pyval \<Rightarrow> py_exn + bool" where
  "has_data data =
     (case py_in ''data'' data of
        Inl e \<Rightarrow> Inl e
      | Inr False \<Rightarrow> Inr False
      | Inr True \<Rightarrow>
          (case py_getitem data ''data'' of
             Inl e \<Rightarrow> Inl e
           | Inr d \<Rightarrow> (case py_len d of Inl e \<Rightarrow> Inl e | Inr n \<Rightarrow> Inr (n > 0))))"

text \<open>The branch taken on status 200 with data, after \<^verbatim>\<open>data = response.json()\<close>.\<close>

definition analyse_feed :: "pyval \<Rightarrow> state \<Rightarrow> (py_exn + int list) \<times> state" where
  "analyse_feed data st =
     (case py_getitem data ''data'' of
        Inl e \<Rightarrow> (Inl e, st)
      | Inr d \<Rightarrow>
     (case py_len d of
        Inl e \<Rightarrow> (Inl e, st)
      | Inr n \<Rightarrow>
     (let st1 = print (L_received n) st in
      case py_iter d of
        Inl e \<Rightarrow> (Inl e, st1)
      | Inr entries \<Rightarrow>
     (case count_countries entries [] of
        Inl e \<Rightarrow> (Inl e, st1)
      | Inr country_stats \<Rightarrow>
     (let st2 = print L_top_countries st1;
          sc = sorted_countries country_stats;
          st3 = fold (\<lambda>(country, count). print (L_country country count)) sc st2;
          st4 = print L_combining st3;
          static_asns = get_known_bad_asns;
          st5 = (if high_risk_detected sc then print L_high_risk st4 else st4);
          selected_asns = take MAX_ASNS static_asns
      in (Inr selected_asns, print (L_using (length selected_asns)) st5))))))"

text \<open>The body of the \<^verbatim>\<open>try\<close> block: the result, or the exception that leaves it.\<close>

definition fetch_try :: "env \<Rightarrow> string \<Rightarrow> state \<Rightarrow> (py_exn + int list) \<times> state" where
  "fetch_try env key st =
     (let st1 = print L_attempting st;
          (r, st2) = http env (GET_blacklist key) st1
      in case r of
        Inl e \<Rightarrow> (Inl e, st2)
      | Inr response \<Rightarrow>
          if status_code response = 200 then
            (let st3 = print L_call_successful st2 in
             case json response of
               Inl e \<Rightarrow> (Inl e, st3)
             | Inr data \<Rightarrow>
                 (case has_data data of
                    Inl e \<Rightarrow> (Inl e, st3)
                  | Inr True \<Rightarrow> analyse_feed data st3
                  | Inr False \<Rightarrow>
                      (Inr (take MAX_ASNS get_known_bad_asns), print L_empty_data st3)))
          else if status_code response = 429 then
            (Inr (take MAX_ASNS get_known_bad_asns),
             print L_fallback_protection (print L_rate_limit st2))
          else if status_code response = 401 then
            (Inr (take MAX_ASNS get_known_bad_asns),
             print L_fallback (print L_auth_failed st2))
          else
            (Inr (take MAX_ASNS get_known_bad_asns),
             print L_fallback
               (print (L_response (take 200 (text' response)))
                  (print (L_api_error (status_code response)) st2))))"

text \<open>
  \<^verbatim>\<open>not ABUSEIPDB_API_KEY\<close> holds for an unset variable and for an empty one.
\<close>

definition fetch_abuseipdb_asns :: "env \<Rightarrow> state \<Rightarrow> int list \<times> state" where
  "fetch_abuseipdb_asns env st =
     (case ABUSEIPDB_API_KEY env of
        None \<Rightarrow> (take MAX_ASNS get_known_bad_asns, print L_no_api_key st)
      | Some key \<Rightarrow>
          if key = [] then (take MAX_ASNS get_known_bad_asns, print L_no_api_key st)
          else
            (case fetch_try env key st of
               (Inr asns, st') \<Rightarrow> (asns, st')
             | (Inl e, st') \<Rightarrow>
                 if e = RequestException
                 then (take MAX_ASNS get_known_bad_asns,
                       print L_fallback (print (L_network_error e) st'))
                 else (take MAX_ASNS get_known_bad_asns,
                       print L_fallback (print (L_unexpected_error e) st'))))"

section \<open>The rules file updater\<close>

text \<open>The rule built from the list of numbers, with the f-string of its expression.\<close>

definition rule_block :: "int list \<Rightarrow> pyval" where
  "rule_block asns =
     PDict [(PStr ''name'', PStr ''Block Known Bad ASNs (AbuseIPDB)''),
            (PStr ''action'', PStr ''block''),
            (PStr ''expression'',
             PStr (''(ip.geoip.asnum in {'' @ join '' '' (map str asns) @ ''})''))]"

text \<open>
  \<^verbatim>\<open>[rule for rule in data["rules"] if "ASN" not in rule["name"]]\<close>: the rules are visited
  in order, and the first one whose name cannot be read or searched raises.
\<close>

fun keep_rules :: "pyval list \<Rightarrow> py_exn + pyval list" where
  "keep_rules [] = Inr []"
| "keep_rules (rule # rules) =
     (case py_getitem rule ''name'' of
        Inl e \<Rightarrow> Inl e
      | Inr name \<Rightarrow>
          (case py_in ''ASN'' name of
             Inl e \<Rightarrow> Inl e
           | Inr asn \<Rightarrow>
               (case keep_rules rules of
                  Inl e \<Rightarrow> Inl e
                | Inr kept \<Rightarrow> Inr (if asn then kept else rule # kept))))"

text \<open>\<^verbatim>\<open>v[s] = x\<close> for a string literal \<open>s\<close>.\<close>

fun py_setitem :: "pyval \<Rightarrow> string \<Rightarrow> pyval \<Rightarrow> py_exn + pyval" where
  "py_setitem (PDict kvs) s x = Inr (PDict (dict_set kvs (PStr s) x))"
| "py_setitem v s x = Inl TypeError"

definition update_rules_yaml :: "int list \<Rightarrow> state \<Rightarrow> (py_exn + unit) \<times> state" where
  "update_rules_yaml asns st =
     (case rules_yaml st of
        Inl e \<Rightarrow> (Inl e, st)
      | Inr data \<Rightarrow>
     (case py_getitem data ''rules'' of
        Inl e \<Rightarrow> (Inl e, st)
      | Inr old \<Rightarrow>
     (case py_iter old of
        Inl e \<Rightarrow> (Inl e, st)
      | Inr rules \<Rightarrow>
     (case keep_rules rules of
        Inl e \<Rightarrow> (Inl e, st)
      | Inr kept \<Rightarrow>
          if asns \<noteq> [] then
            (case py_setitem data ''rules'' (PList (kept @ [rule_block asns])) of
               Inl e \<Rightarrow> (Inl e, st)
             | Inr data' \<Rightarrow>
                 (Inr (), (print (L_added (length asns)) st)\<lparr>rules_yaml := Inr data'\<rparr>))
          else
            (case py_setitem data ''rules'' (PList kept) of
               Inl e \<Rightarrow> (Inl e, st)
             | Inr data' \<Rightarrow>
                 (Inr (), (print L_no_asn_data st)\<lparr>rules_yaml := Inr data'\<rparr>))))))"

section \<open>The ruleset cleanup client\<close>

text \<open>The \<^verbatim>\<open>Authorization\<close> header, \<^verbatim>\<open>f"Bearer {CLOUDFLARE_API_TOKEN}"\<close>.\<close>

definition bearer :: "env \<Rightarrow> string" where
  "bearer env =
     ''Bearer '' @ (case CLOUDFLARE_API_TOKEN env of None \<Rightarrow> ''None'' | Some t \<Rightarrow> t)"

definition get_zone_rulesets :: "env \<Rightarrow> string \<Rightarrow> state \<Rightarrow> (py_exn + pyval) \<times> state" where
  "get_zone_rulesets env zone_id st =
     (if CLOUDFLARE_API_TOKEN env = None \<or> CLOUDFLARE_API_TOKEN env = Some []
      then (Inr (PList []), print L_no_token_warning st)
      else
        (case http env (GET_rulesets (bearer env) zone_id) st of
           (Inl e, st1) \<Rightarrow> (Inl e, st1)
         | (Inr response, st1) \<Rightarrow>
             if status_code response \<noteq> 200
             then (Inr (PList []), print (L_fetch_error zone_id (status_code response)) st1)
             else
               (case json response of
                  Inl e \<Rightarrow> (Inl e, st1)
                | Inr body \<Rightarrow>
                    (case py_get body ''result'' (PList []) of
                       Inl e \<Rightarrow> (Inl e, st1)
                     | Inr result \<Rightarrow> (Inr result, st1)))))"

definition delete_ruleset :: "env \<Rightarrow> string \<Rightarrow> pyval \<Rightarrow> state \<Rightarrow> (py_exn + bool) \<times> state" where
  "delete_ruleset env zone_id ruleset_id st =
     (case http env (DELETE_ruleset (bearer env) zone_id ruleset_id) st of
        (Inl e, st1) \<Rightarrow> (Inl e, st1)
      | (Inr response, st1) \<Rightarrow>
          if status_code response \<in> {200, 204}
          then (Inr True, print (L_deleted ruleset_id) st1)
          else (Inr False, print (L_delete_failed ruleset_id (status_code response)) st1))"

text \<open>
  The comprehension that keeps the rulesets of the custom firewall phase and of kind zone;
  \<^verbatim>\<open>and\<close> reads the kind only when the phase matches.
\<close>

fun custom_rulesets :: "pyval list \<Rightarrow> py_exn + pyval list" where
  "custom_rulesets [] = Inr []"
| "custom_rulesets (rs # rulesets) =
     (case py_get rs ''phase'' PNone of
        Inl e \<Rightarrow> Inl e
      | Inr phase \<Rightarrow>
          if phase = PStr ''http_request_firewall_custom'' then
            (case py_get rs ''kind'' PNone of
               Inl e \<Rightarrow> Inl e
             | Inr kind \<Rightarrow>
                 (case custom_rulesets rulesets of
                    Inl e \<Rightarrow> Inl e
                  | Inr rest \<Rightarrow> Inr (if kind = PStr ''zone'' then rs # rest else rest)))
          else custom_rulesets rulesets)"

text \<open>\<^verbatim>\<open>v.lower()\<close>: only a string has the method.\<close>

fun py_lower :: "pyval \<Rightarrow> py_exn + string" where
  "py_lower (PStr s) = Inr (lower s)"
| "py_lower v = Inl AttributeError"

definition managed_keywords :: "string list" where
  "managed_keywords = [''terraform'', ''waf'', ''managed'']"

text \<open>The loop \<^verbatim>\<open>for ruleset in custom_rulesets\<close>.\<close>

fun delete_managed :: "env \<Rightarrow> string \<Rightarrow> pyval list \<Rightarrow> state \<Rightarrow> (py_exn + unit) \<times> state" where
  "delete_managed env zone_id [] st = (Inr (), st)"
| "delete_managed env zone_id (ruleset # rest) st =
     (case py_getitem ruleset ''name'' of
        Inl e \<Rightarrow> (Inl e, st)
      | Inr name \<Rightarrow>
     (case py_getitem ruleset ''id'' of
        Inl e \<Rightarrow> (Inl e, st)
      | Inr ruleset_id \<Rightarrow>
     (let st1 = print (L_ruleset name ruleset_id) st in
      case py_lower name of
        Inl e \<Rightarrow> (Inl e, st1)
      | Inr lowered \<Rightarrow>
          if list_ex (\<lambda>keyword. str_contains keyword lowered) managed_keywords then
            (case delete_ruleset env zone_id ruleset_id (print (L_deleting name) st1) of
               (Inl e, st2) \<Rightarrow> (Inl e, st2)
             | (Inr ok, st2) \<Rightarrow> delete_managed env zone_id rest st2)
          else delete_managed env zone_id rest (print (L_skipping name) st1))))"

text \<open>The body of the loop over the zones.\<close>

definition cleanup_zone :: "env \<Rightarrow> string \<Rightarrow> string \<Rightarrow> state \<Rightarrow> (py_exn + unit) \<times> state" where
  "cleanup_zone env zone_name zone_id st =
     (case get_zone_rulesets env zone_id (print (L_zone zone_name zone_id) st) of
        (Inl e, st1) \<Rightarrow> (Inl e, st1)
      | (Inr rulesets, st1) \<Rightarrow>
     (case py_iter rulesets of
        Inl e \<Rightarrow> (Inl e, st1)
      | Inr rss \<Rightarrow>
     (case custom_rulesets rss of
        Inl e \<Rightarrow> (Inl e, st1)
      | Inr custom \<Rightarrow>
          if custom = [] then (Inr (), print L_no_custom st1)
          else delete_managed env zone_id custom (print (L_found (length custom)) st1))))"

fun cleanup_zones :: "env \<Rightarrow> (string \<times> string) list \<Rightarrow> state \<Rightarrow> (py_exn + unit) \<times> state" where
  "cleanup_zones env [] st = (Inr (), st)"
| "cleanup_zones env ((zone_name, zone_id) # zones) st =
     (case cleanup_zone env zone_name zone_id st of
        (Inl e, st1) \<Rightarrow> (Inl e, st1)
      | (Inr u, st1) \<Rightarrow> cleanup_zones env zones st1)"

definition cleanup_existing_rulesets :: "env \<Rightarrow> state \<Rightarrow> (py_exn + unit) \<times> state" where
  "cleanup_existing_rulesets env st =
     (if CLOUDFLARE_API_TOKEN env = None \<or> CLOUDFLARE_API_TOKEN env = Some []
      then (Inr (), print L_skip_cleanup st)
      else cleanup_zones env ZONE_IDS (print L_cleaning_up st))"

section \<open>The vocabulary of the specification\<close>

text \<open>
  A rule whose name contains the substring \<^verbatim>\<open>ASN\<close>, as the updater tests it. A rule
  whose name cannot be read or searched is not one.
\<close>

definition names_asn :: "pyval \<Rightarrow> bool" where
  "names_asn rule =
     (case py_getitem rule ''name'' of
        Inl e \<Rightarrow> False
      | Inr name \<Rightarrow> py_in ''ASN'' name = Inr True)"

text \<open>A ruleset as the management API lists it: a dict with a string name and an id.\<close>

definition well_formed :: "pyval \<Rightarrow> bool" where
  "well_formed rs =
     (case py_getitem rs ''name'' of
        Inr (PStr name) \<Rightarrow> (case py_getitem rs ''id'' of Inr i \<Rightarrow> True | Inl e \<Rightarrow> False)
      | _ \<Rightarrow> False)"

text \<open>The phase is the custom firewall phase and the kind is zone.\<close>

definition is_custom_zone :: "pyval \<Rightarrow> bool" where
  "is_custom_zone rs =
     (py_get rs ''phase'' PNone = Inr (PStr ''http_request_firewall_custom'') \<and>
      py_get rs ''kind'' PNone = Inr (PStr ''zone''))"

text \<open>The name, compared without regard to case, contains one of the three words.\<close>

definition name_matches :: "pyval \<Rightarrow> bool" where
  "name_matches rs =
     (case py_getitem rs ''name'' of
        Inr (PStr name) \<Rightarrow>
          str_contains ''terraform'' (lower name) \<or> str_contains ''waf'' (lower name) \<or>
          str_contains ''managed'' (lower name)
      | _ \<Rightarrow> False)"

definition deletable :: "pyval \<Rightarrow> bool" where
  "deletable rs = (is_custom_zone rs \<and> name_matches rs)"

text \<open>The one DELETE request for a ruleset of a zone.\<close>

definition delete_of :: "env \<Rightarrow> string \<Rightarrow> pyval \<Rightarrow> request list" where
  "delete_of env zone_id rs =
     (case py_getitem rs ''id'' of
        Inr i \<Rightarrow> [DELETE_ruleset (bearer env) zone_id i]
      | Inl e \<Rightarrow> [])"

text \<open>
  The requests expected of a cleanup, zone by zone: the listing of the zone, then one
  DELETE for each deletable ruleset of its listing, in the order of the listing.
\<close>

definition expected_requests ::
  "env \<Rightarrow> (string \<Rightarrow> pyval list) \<Rightarrow> (string \<times> string) list \<Rightarrow> request list" where
  "expected_requests env listing zones =
     concat (map (\<lambda>(zone_name, zone_id).
        GET_rulesets (bearer env) zone_id #
        concat (map (delete_of env zone_id) (filter deletable (listing zone_id)))) zones)"

section \<open>Example runs\<close>

definition reply :: "int \<Rightarrow> py_exn + pyval \<Rightarrow> response" where
  "reply code body = \<lparr>status_code = code, text' = [], json = body\<rparr>"

text \<open>A run with an intelligence credential, against a feed that always gives one answer.\<close>

definition env_feed :: "py_exn + response \<Rightarrow> env" where
  "env_feed answer =
     \<lparr>ABUSEIPDB_API_KEY = Some ''key'', CLOUDFLARE_API_TOKEN = None,
      server = (\<lambda>h req. answer)\<rparr>"

definition env_no_key :: env where
  "env_no_key =
     \<lparr>ABUSEIPDB_API_KEY = None, CLOUDFLARE_API_TOKEN = None,
      server = (\<lambda>h req. Inl RequestException)\<rparr>"

definition rule :: "string \<Rightarrow> string \<Rightarrow> string \<Rightarrow> pyval" where
  "rule name action expression =
     PDict [(PStr ''name'', PStr name), (PStr ''action'', PStr action),
            (PStr ''expression'', PStr expression)]"

definition rules_example :: pyval where
  "rules_example =
     PDict [(PStr ''version'', PNum 1),
            (PStr ''rules'',
             PList [rule ''Block bad bots'' ''block'' ''(cf.client.bot)'',
                    rule ''Old ASN list'' ''block'' ''(ip.geoip.asnum in {1 2})'',
                    rule ''Challenge logins'' ''managed_challenge''
                      ''(cf.threat_score gt 10)''])]"

definition st_example :: state where
  "st_example = \<lparr>sent = [], printed = [], rules_yaml = Inr rules_example\<rparr>"

text \<open>The example after an update with the two numbers 64512 and 64513.\<close>

definition st_updated :: state where
  "st_updated =
     \<lparr>sent = [], printed = [L_added 2],
      rules_yaml = Inr (PDict
        [(PStr ''version'', PNum 1),
         (PStr ''rules'',
          PList [rule ''Block bad bots'' ''block'' ''(cf.client.bot)'',
                 rule ''Challenge logins'' ''managed_challenge'' ''(cf.threat_score gt 10)'',
                 rule ''Block Known Bad ASNs (AbuseIPDB)'' ''block''
                   ''(ip.geoip.asnum in {64512 64513})''])])\<rparr>"

text \<open>The example after an update with the empty list.\<close>

definition st_cleared :: state where
  "st_cleared =
     \<lparr>sent = [], printed = [L_no_asn_data],
      rules_yaml = Inr (PDict
        [(PStr ''version'', PNum 1),
         (PStr ''rules'',
          PList [rule ''Block bad bots'' ''block'' ''(cf.client.bot)'',
                 rule ''Challenge logins'' ''managed_challenge''
                   ''(cf.threat_score gt 10)''])])\<rparr>"

definition ruleset :: "string \<Rightarrow> string \<Rightarrow> pyval" where
  "ruleset ruleset_id name =
     PDict [(PStr ''id'', PStr ruleset_id), (PStr ''name'', PStr name),
            (PStr ''phase'', PStr ''http_request_firewall_custom''),
            (PStr ''kind'', PStr ''zone'')]"

definition listing_example :: "string \<Rightarrow> pyval list" where
  "listing_example zone_id =
     (if zone_id = ''1791cd65881eb3caf7d1a3cb315342a5''
      then [ruleset ''a1'' ''Terraform Managed WAF'', ruleset ''b2'' ''Custom Rule'']
      else [])"

definition server_example :: "request list \<Rightarrow> request \<Rightarrow> py_exn + response" where
  "server_example h req =
     (case req of
        GET_blacklist k \<Rightarrow> Inl RequestException
      | GET_rulesets auth zone_id \<Rightarrow>
          Inr (reply 200 (Inr (PDict [(PStr ''result'', PList (listing_example zone_id))])))
      | DELETE_ruleset auth zone_id i \<Rightarrow> Inr (reply 204 (Inl ValueError)))"

definition server_unavailable :: "request list \<Rightarrow> request \<Rightarrow> py_exn + response" where
  "server_unavailable h req = Inr (reply 503 (Inl ValueError))"

definition server_down :: "request list \<Rightarrow> request \<Rightarrow> py_exn + response" where
  "server_down h req = Inl RequestException"

definition env_cleanup :: "(request list \<Rightarrow> request \<Rightarrow> py_exn + response) \<Rightarrow> env" where
  "env_cleanup s =
     \<lparr>ABUSEIPDB_API_KEY = None, CLOUDFLARE_API_TOKEN = Some ''token'', server = s\<rparr>"

section \<open>Properties of the intelligence fetcher\<close>

lemma length_catalog: "length get_known_bad_asns = 32"
  by (simp add: get_known_bad_asns_def)

lemma analyse_feed_value:
  "analyse_feed data st = (Inr asns, st') \<Longrightarrow> asns = take MAX_ASNS get_known_bad_asns"
  by (auto simp: analyse_feed_def Let_def split: sum.splits)

lemma fetch_try_value:
  "fetch_try env key st = (Inr asns, st') \<Longrightarrow> asns = take MAX_ASNS get_known_bad_asns"
  by (auto simp: fetch_try_def Let_def http_def split: sum.splits if_splits bool.splits
      dest: analyse_feed_value)

lemma fetch_value:
  "fst (fetch_abuseipdb_asns env st) = take MAX_ASNS get_known_bad_asns"
  by (auto simp: fetch_abuseipdb_asns_def split: option.splits prod.splits sum.splits
      dest: fetch_try_value)

text \<open>
  Claim C2. Whatever the environment holds (no credential, or a credential and any answer
  of the feed: a response of any status and body, or an exception of any class), the list
  that \<^verbatim>\<open>fetch_abuseipdb_asns\<close> returns has at most 50 elements and is a prefix of the
  static catalog.
\<close>

theorem fetch_bounded_prefix:
  "length (fst (fetch_abuseipdb_asns env st)) \<le> 50 \<and>
   prefix (fst (fetch_abuseipdb_asns env st)) get_known_bad_asns"
  by (simp add: fetch_value MAX_ASNS_def take_is_prefix)

text \<open>
  Claim C6. With a credential configured, a 429 response, a 401 response and a 200
  response whose \<^verbatim>\<open>data\<close> array is empty all make \<^verbatim>\<open>fetch_abuseipdb_asns\<close> return the
  static catalog truncated to \<^verbatim>\<open>MAX_ASNS\<close>, after exactly one request; each of the three
  prints its own lines on the way.
\<close>

theorem fetch_fallback_convergence:
  assumes "ABUSEIPDB_API_KEY env = Some key" and "key \<noteq> []"
    and "server env (sent st) (GET_blacklist key) = Inr r"
    and "status_code r = 429 \<or> status_code r = 401 \<or>
         (status_code r = 200 \<and> json r = Inr (PDict kvs) \<and>
          map_of kvs (PStr ''data'') = Some (PList []))"
  shows "fst (fetch_abuseipdb_asns env st) = take MAX_ASNS get_known_bad_asns \<and>
         sent (snd (fetch_abuseipdb_asns env st)) = sent st @ [GET_blacklist key] \<and>
         printed (snd (fetch_abuseipdb_asns env st)) = printed st @
           (if status_code r = 429 then [L_attempting, L_rate_limit, L_fallback_protection]
            else if status_code r = 401 then [L_attempting, L_auth_failed, L_fallback]
            else [L_attempting, L_call_successful, L_empty_data])"
proof -
  have a: "map_of kvs (PStr ''data'') = Some (PList []) \<Longrightarrow> has_data (PDict kvs) = Inr False"
    by (auto simp: has_data_def split: bool.splits dest: map_of_SomeD)
  from assms a show ?thesis
    by (auto simp: fetch_abuseipdb_asns_def fetch_try_def http_def print_def Let_def)
qed

theorem fetch_fallback_convergence_witness:
  "fst (fetch_abuseipdb_asns (env_feed (Inr (reply 429 (Inl ValueError)))) st_example)
     = take MAX_ASNS get_known_bad_asns \<and>
   fst (fetch_abuseipdb_asns (env_feed (Inr (reply 401 (Inl ValueError)))) st_example)
     = take MAX_ASNS get_known_bad_asns \<and>
   fst (fetch_abuseipdb_asns
          (env_feed (Inr (reply 200 (Inr (PDict [(PStr ''data'', PList [])]))))) st_example)
     = take MAX_ASNS get_known_bad_asns \<and>
   sent (snd (fetch_abuseipdb_asns (env_feed (Inr (reply 429 (Inl ValueError)))) st_example))
     = [GET_blacklist ''key'']"
proof -
  let ?e1 = "env_feed (Inr (reply 429 (Inl ValueError)))"
  let ?e2 = "env_feed (Inr (reply 401 (Inl ValueError)))"
  let ?e3 = "env_feed (Inr (reply 200 (Inr (PDict [(PStr ''data'', PList [])]))))"
  have k: "ABUSEIPDB_API_KEY ?e1 = Some ''key''" "ABUSEIPDB_API_KEY ?e2 = Some ''key''"
    "ABUSEIPDB_API_KEY ?e3 = Some ''key''" "''key'' \<noteq> []"
    by (simp_all add: env_feed_def)
  have s1: "server ?e1 (sent st_example) (GET_blacklist ''key'') = Inr (reply 429 (Inl ValueError))"
    by (simp add: env_feed_def)
  have s2: "server ?e2 (sent st_example) (GET_blacklist ''key'') = Inr (reply 401 (Inl ValueError))"
    by (simp add: env_feed_def)
  have s3: "server ?e3 (sent st_example) (GET_blacklist ''key'')
              = Inr (reply 200 (Inr (PDict [(PStr ''data'', PList [])])))"
    by (simp add: env_feed_def)
  have c1: "status_code (reply 429 (Inl ValueError)) = 429 \<or>
            status_code (reply 429 (Inl ValueError)) = 401 \<or>
            (status_code (reply 429 (Inl ValueError)) = 200 \<and>
             json (reply 429 (Inl ValueError)) = Inr (PDict []) \<and>
             map_of [] (PStr ''data'') = Some (PList []))"
    by (simp add: reply_def)
  have c2: "status_code (reply 401 (Inl ValueError)) = 429 \<or>
            status_code (reply 401 (Inl ValueError)) = 401 \<or>
            (status_code (reply 401 (Inl ValueError)) = 200 \<and>
             json (reply 401 (Inl ValueError)) = Inr (PDict []) \<and>
             map_of [] (PStr ''data'') = Some (PList []))"
    by (simp add: reply_def)
  have c3: "status_code (reply 200 (Inr (PDict [(PStr ''data'', PList [])]))) = 429 \<or>
            status_code (reply 200 (Inr (PDict [(PStr ''data'', PList [])]))) = 401 \<or>
            (status_code (reply 200 (Inr (PDict [(PStr ''data'', PList [])]))) = 200 \<and>
             json (reply 200 (Inr (PDict [(PStr ''data'', PList [])])))
               = Inr (PDict [(PStr ''data'', PList [])]) \<and>
             map_of [(PStr ''data'', PList [])] (PStr ''data'') = Some (PList []))"
    by (simp add: reply_def)
  from fetch_fallback_convergence [OF k(1) k(4) s1 c1]
    fetch_fallback_convergence [OF k(2) k(4) s2 c2]
    fetch_fallback_convergence [OF k(3) k(4) s3 c3]
  show ?thesis
    by (simp add: st_example_def)
qed

text \<open>
  Claim C7. When the intelligence credential is not configured (the variable is unset or
  empty), \<^verbatim>\<open>fetch_abuseipdb_asns\<close> prints one line, sends no request, and returns the
  static catalog truncated to \<^verbatim>\<open>MAX_ASNS\<close>.
\<close>

theorem fetch_without_key:
  assumes "ABUSEIPDB_API_KEY env = None \<or> ABUSEIPDB_API_KEY env = Some []"
  shows "fetch_abuseipdb_asns env st =
           (take MAX_ASNS get_known_bad_asns, print L_no_api_key st) \<and>
         sent (snd (fetch_abuseipdb_asns env st)) = sent st"
  using assms by (auto simp: fetch_abuseipdb_asns_def print_def)

theorem fetch_without_key_witness:
  "(ABUSEIPDB_API_KEY env_no_key = None \<or> ABUSEIPDB_API_KEY env_no_key = Some []) \<and>
   sent (snd (fetch_abuseipdb_asns env_no_key st_example)) = [] \<and>
   length (fst (fetch_abuseipdb_asns env_no_key st_example)) = 32"
proof -
  have h: "ABUSEIPDB_API_KEY env_no_key = None \<or> ABUSEIPDB_API_KEY env_no_key = Some []"
    by (simp add: env_no_key_def)
  from fetch_without_key [OF h, of st_example] h show ?thesis
    by (simp add: st_example_def print_def MAX_ASNS_def length_catalog)
qed

text \<open>
  Claim C9. The list returned by \<^verbatim>\<open>fetch_abuseipdb_asns\<close> does not depend on the remote
  side: two runs that differ only in the answers of the feed return the same list. That
  list is the whole static catalog, because the catalog has fewer than \<^verbatim>\<open>MAX_ASNS\<close>
  entries and truncating it changes nothing.
\<close>

theorem fetch_constant:
  "fst (fetch_abuseipdb_asns (env\<lparr>server := feed1\<rparr>) st) =
     fst (fetch_abuseipdb_asns (env\<lparr>server := feed2\<rparr>) st) \<and>
   fst (fetch_abuseipdb_asns env st) = get_known_bad_asns \<and>
   length get_known_bad_asns < MAX_ASNS \<and>
   take MAX_ASNS get_known_bad_asns = get_known_bad_asns"
  by (simp add: fetch_value length_catalog MAX_ASNS_def)

section \<open>Properties of the rules file updater\<close>

lemma keep_rules_filter:
  "keep_rules rules = Inr kept \<Longrightarrow> kept = filter (\<lambda>r. \<not> names_asn r) rules"
  by (induction rules arbitrary: kept)
     (auto simp: names_asn_def split: sum.splits if_splits)

lemma keep_rules_no_asn:
  "keep_rules rules = Inr kept \<Longrightarrow> filter names_asn kept = []"
  by (drule keep_rules_filter) simp

lemma keep_rules_again:
  "keep_rules rules = Inr kept \<Longrightarrow> keep_rules kept = Inr kept"
  by (induction rules arbitrary: kept)
     (auto split: sum.splits if_splits)

lemma names_asn_rule_block: "names_asn (rule_block asns)"
  by (simp add: names_asn_def rule_block_def)

lemma keep_rules_append:
  "keep_rules (xs @ ys) =
     (case keep_rules xs of
        Inl e \<Rightarrow> Inl e
      | Inr kx \<Rightarrow> (case keep_rules ys of Inl e \<Rightarrow> Inl e | Inr ky \<Rightarrow> Inr (kx @ ky)))"
  by (induction xs) (auto split: sum.splits)

lemma keep_rules_block: "keep_rules [rule_block asns] = Inr []"
  by (simp add: rule_block_def)

lemma keep_rules_append_block:
  "keep_rules rules = Inr kept \<Longrightarrow> keep_rules (kept @ [rule_block asns]) = Inr kept"
  by (simp add: keep_rules_append keep_rules_again keep_rules_block del: keep_rules.simps)

lemma map_of_dict_set_same: "map_of (dict_set kvs k v) k = Some v"
  by (induction kvs k v rule: dict_set.induct) auto

lemma map_of_dict_set_other: "k' \<noteq> k \<Longrightarrow> map_of (dict_set kvs k v) k' = map_of kvs k'"
  by (induction kvs k v rule: dict_set.induct) auto

lemma dict_set_others:
  "filter (\<lambda>kv. fst kv \<noteq> k) (dict_set kvs k v) = filter (\<lambda>kv. fst kv \<noteq> k) kvs"
  by (induction kvs k v rule: dict_set.induct) auto

lemma dict_set_keys:
  "map_of kvs k = Some old \<Longrightarrow> map fst (dict_set kvs k v) = map fst kvs"
  by (induction kvs k v rule: dict_set.induct) (auto split: if_splits)

lemma dict_set_twice: "dict_set (dict_set kvs k v) k v = dict_set kvs k v"
  by (induction kvs k v rule: dict_set.induct) auto

lemma update_rules_yaml_result:
  assumes "update_rules_yaml asns st = (Inr (), st')"
  obtains kvs old rules kept where
    "rules_yaml st = Inr (PDict kvs)"
    "map_of kvs (PStr ''rules'') = Some old"
    "py_iter old = Inr rules"
    "keep_rules rules = Inr kept"
    "st' = (print (if asns \<noteq> [] then L_added (length asns) else L_no_asn_data) st)
             \<lparr>rules_yaml := Inr (PDict (dict_set kvs (PStr ''rules'')
                 (PList (kept @ (if asns \<noteq> [] then [rule_block asns] else [])))))\<rparr>"
proof -
  from assms obtain data where d: "rules_yaml st = Inr data"
    by (auto simp: update_rules_yaml_def split: sum.splits)
  from assms d obtain old where o: "py_getitem data ''rules'' = Inr old"
    by (auto simp: update_rules_yaml_def split: sum.splits)
  then obtain kvs where k: "data = PDict kvs" "map_of kvs (PStr ''rules'') = Some old"
    by (cases data) (auto split: option.splits)
  from assms d o obtain rules where r: "py_iter old = Inr rules"
    by (auto simp: update_rules_yaml_def split: sum.splits)
  from assms d o r obtain kept where kp: "keep_rules rules = Inr kept"
    by (auto simp: update_rules_yaml_def split: sum.splits)
  from assms d o r kp k have
    "st' = (print (if asns \<noteq> [] then L_added (length asns) else L_no_asn_data) st)
             \<lparr>rules_yaml := Inr (PDict (dict_set kvs (PStr ''rules'')
                 (PList (kept @ (if asns \<noteq> [] then [rule_block asns] else [])))))\<rparr>"
    by (auto simp: update_rules_yaml_def split: if_splits)
  with d k r kp show thesis using that by blast
qed


lemma startswith_prefix: "startswith s sub \<longleftrightarrow> prefix sub s"
  by (induction s sub rule: startswith.induct) auto

lemma str_contains_sublist: "str_contains sub s \<longleftrightarrow> sublist sub s"
  by (induction s) (auto simp: startswith_prefix sublist_Cons_right)

lemma sublist_join: "x \<in> set xs \<Longrightarrow> sublist x (join sep xs)"
proof (induction sep xs rule: join.induct)
  case (1 sep)
  then show ?case by simp
next
  case (2 sep y)
  then show ?case by simp
next
  case (3 sep y z zs)
  show ?case
  proof (cases "x = y")
    case True
    then show ?thesis by (simp add: sublist_append)
  next
    case False
    with 3 have "sublist x (join sep (z # zs))" by simp
    moreover have "join sep (y # z # zs) = y @ sep @ join sep (z # zs)" by simp
    ultimately show ?thesis by (metis sublist_append)
  qed
qed

lemma expression_contains:
  "a \<in> set asns \<Longrightarrow> str_contains (str a) (pre @ join sep (map str asns) @ post)"
  by (simp add: str_contains_sublist sublist_append sublist_join)

lemma str_64512: "str 64512 = ''64512''" and str_64513: "str 64513 = ''64513''"
  by (simp_all add: str_def digit_def str_nat.simps)

lemma update_example:
  "update_rules_yaml [64512, 64513] st_example = (Inr (), st_updated)"
  by (simp add: update_rules_yaml_def st_example_def st_updated_def rules_example_def
      rule_def rule_block_def print_def str_64512 str_64513)

lemma update_example_empty:
  "update_rules_yaml [] st_example = (Inr (), st_cleared)"
  by (simp add: update_rules_yaml_def st_example_def st_cleared_def rules_example_def
      rule_def print_def)

text \<open>
  Claim C3. Whenever \<^verbatim>\<open>update_rules_yaml\<close> completes, on any document and any list of
  numbers, the document it leaves has a list of rules of which at most one has a name
  containing \<^verbatim>\<open>ASN\<close>; when the list of numbers is empty, none has.
\<close>

theorem update_at_most_one_asn_rule:
  assumes "update_rules_yaml asns st = (Inr (), st')"
  shows "\<exists>doc rules. rules_yaml st' = Inr doc \<and> py_getitem doc ''rules'' = Inr (PList rules) \<and>
           length (filter names_asn rules) \<le> 1 \<and>
           (asns = [] \<longrightarrow> filter names_asn rules = [])"
proof -
  from assms obtain kvs old rules kept where
    d: "rules_yaml st = Inr (PDict kvs)" and
    o: "map_of kvs (PStr ''rules'') = Some old" and
    i: "py_iter old = Inr rules" and
    k: "keep_rules rules = Inr kept" and
    s: "st' = (print (if asns \<noteq> [] then L_added (length asns) else L_no_asn_data) st)
             \<lparr>rules_yaml := Inr (PDict (dict_set kvs (PStr ''rules'')
                 (PList (kept @ (if asns \<noteq> [] then [rule_block asns] else [])))))\<rparr>"
    by (rule update_rules_yaml_result)
  let ?rules = "kept @ (if asns \<noteq> [] then [rule_block asns] else [])"
  have "rules_yaml st' = Inr (PDict (dict_set kvs (PStr ''rules'') (PList ?rules)))"
    using s by simp
  moreover have "py_getitem (PDict (dict_set kvs (PStr ''rules'') (PList ?rules))) ''rules''
                   = Inr (PList ?rules)"
    by (simp add: map_of_dict_set_same)
  moreover have "length (filter names_asn ?rules) \<le> 1"
    using keep_rules_no_asn [OF k] by simp
  moreover have "asns = [] \<longrightarrow> filter names_asn ?rules = []"
    using keep_rules_no_asn [OF k] by simp
  ultimately show ?thesis by blast
qed

theorem update_at_most_one_asn_rule_witness:
  "update_rules_yaml [] st_example = (Inr (), st_cleared) \<and>
   update_rules_yaml [64512, 64513] st_example = (Inr (), st_updated) \<and>
   (\<exists>doc rules. rules_yaml st_cleared = Inr doc \<and>
      py_getitem doc ''rules'' = Inr (PList rules) \<and> filter names_asn rules = []) \<and>
   (\<exists>doc rules. rules_yaml st_updated = Inr doc \<and>
      py_getitem doc ''rules'' = Inr (PList rules) \<and> length (filter names_asn rules) \<le> 1)"
  using update_at_most_one_asn_rule [OF update_example_empty]
    update_at_most_one_asn_rule [OF update_example]
    update_example update_example_empty
  by blast



text \<open>
  Claim C5. After a completed update with a non-empty list of numbers, a second update
  with the same list completes too and leaves the same document. That document has
  exactly one rule whose name contains \<^verbatim>\<open>ASN\<close>, the rule built from the list: its action
  is \<^verbatim>\<open>block\<close> and its expression contains the decimal form of every number of the list
  (so, for 64512 and 64513, both).
\<close>

theorem update_idempotent:
  assumes "asns \<noteq> []" and "update_rules_yaml asns st = (Inr (), st1)"
  shows "\<exists>st2 doc rules expr.
           update_rules_yaml asns st1 = (Inr (), st2) \<and>
           rules_yaml st2 = rules_yaml st1 \<and>
           rules_yaml st1 = Inr doc \<and> py_getitem doc ''rules'' = Inr (PList rules) \<and>
           filter names_asn rules = [rule_block asns] \<and>
           py_getitem (rule_block asns) ''action'' = Inr (PStr ''block'') \<and>
           py_getitem (rule_block asns) ''expression'' = Inr (PStr expr) \<and>
           (\<forall>a \<in> set asns. str_contains (str a) expr)"
proof -
  from assms(2) obtain kvs old rules kept where
    d: "rules_yaml st = Inr (PDict kvs)" and
    o: "map_of kvs (PStr ''rules'') = Some old" and
    i: "py_iter old = Inr rules" and
    k: "keep_rules rules = Inr kept" and
    s: "st1 = (print (if asns \<noteq> [] then L_added (length asns) else L_no_asn_data) st)
             \<lparr>rules_yaml := Inr (PDict (dict_set kvs (PStr ''rules'')
                 (PList (kept @ (if asns \<noteq> [] then [rule_block asns] else [])))))\<rparr>"
    by (rule update_rules_yaml_result)
  let ?rules = "kept @ [rule_block asns]"
  let ?kvs = "dict_set kvs (PStr ''rules'') (PList ?rules)"
  let ?expr = "''(ip.geoip.asnum in {'' @ join '' '' (map str asns) @ ''})''"
  have 1: "rules_yaml st1 = Inr (PDict ?kvs)"
    using s assms(1) by simp
  have 2: "py_getitem (PDict ?kvs) ''rules'' = Inr (PList ?rules)"
    by (simp add: map_of_dict_set_same)
  have 3: "keep_rules ?rules = Inr kept"
    using k by (rule keep_rules_append_block)
  have 4: "update_rules_yaml asns st1 =
             (Inr (), (print (L_added (length asns)) st1)\<lparr>rules_yaml := Inr (PDict ?kvs)\<rparr>)"
    using assms(1) 1 3
    by (simp add: update_rules_yaml_def map_of_dict_set_same dict_set_twice
             del: keep_rules.simps)
  have 5: "filter names_asn ?rules = [rule_block asns]"
    using keep_rules_no_asn [OF k] by (simp add: names_asn_rule_block)
  have 6: "py_getitem (rule_block asns) ''action'' = Inr (PStr ''block'')"
    by (simp add: rule_block_def)
  have 7: "py_getitem (rule_block asns) ''expression'' = Inr (PStr ?expr)"
    by (simp add: rule_block_def)
  have 8: "\<forall>a \<in> set asns. str_contains (str a) ?expr"
    using expression_contains by blast
  have 9: "rules_yaml ((print (L_added (length asns)) st1)\<lparr>rules_yaml := Inr (PDict ?kvs)\<rparr>)
             = rules_yaml st1"
    using 1 by simp
  from 1 2 4 5 6 7 8 9 show ?thesis by blast
qed

theorem update_idempotent_witness:
  "[64512, 64513] \<noteq> ([] :: int list) \<and>
   update_rules_yaml [64512, 64513] st_example = (Inr (), st_updated) \<and>
   (\<exists>st2. update_rules_yaml [64512, 64513] st_updated = (Inr (), st2) \<and>
      rules_yaml st2 = rules_yaml st_updated) \<and>
   str_contains (str 64512) ''(ip.geoip.asnum in {64512 64513})'' \<and>
   str_contains (str 64513) ''(ip.geoip.asnum in {64512 64513})''"
proof -
  have h: "[64512, 64513] \<noteq> ([] :: int list)" by simp
  from update_idempotent [OF h update_example] obtain st2 where
    "update_rules_yaml [64512, 64513] st_updated = (Inr (), st2)"
    "rules_yaml st2 = rules_yaml st_updated"
    by blast
  then show ?thesis
    using h update_example by (auto simp: str_64512 str_64513)
qed

text \<open>
  Claim C10. Whenever \<^verbatim>\<open>update_rules_yaml\<close> completes, the rules whose name does not
  contain \<^verbatim>\<open>ASN\<close> are the same before and after, in the same order; the keys of the
  document are the same in the same order, and every entry under a key other than
  \<^verbatim>\<open>rules\<close> is unchanged; the new list of rules is the preserved rules followed by the
  new rule, if one is created; and no request is sent.
\<close>

theorem update_frame:
  assumes "update_rules_yaml asns st = (Inr (), st')"
  shows "\<exists>kvs old rules kvs' rules'.
           rules_yaml st = Inr (PDict kvs) \<and> map_of kvs (PStr ''rules'') = Some old \<and>
           py_iter old = Inr rules \<and>
           rules_yaml st' = Inr (PDict kvs') \<and>
           map_of kvs' (PStr ''rules'') = Some (PList rules') \<and>
           filter (\<lambda>r. \<not> names_asn r) rules' = filter (\<lambda>r. \<not> names_asn r) rules \<and>
           map fst kvs' = map fst kvs \<and>
           filter (\<lambda>kv. fst kv \<noteq> PStr ''rules'') kvs' =
             filter (\<lambda>kv. fst kv \<noteq> PStr ''rules'') kvs \<and>
           rules' = filter (\<lambda>r. \<not> names_asn r) rules @
                      (if asns = [] then [] else [rule_block asns]) \<and>
           sent st' = sent st"
proof -
  from assms obtain kvs old rules kept where
    d: "rules_yaml st = Inr (PDict kvs)" and
    o: "map_of kvs (PStr ''rules'') = Some old" and
    i: "py_iter old = Inr rules" and
    k: "keep_rules rules = Inr kept" and
    s: "st' = (print (if asns \<noteq> [] then L_added (length asns) else L_no_asn_data) st)
             \<lparr>rules_yaml := Inr (PDict (dict_set kvs (PStr ''rules'')
                 (PList (kept @ (if asns \<noteq> [] then [rule_block asns] else [])))))\<rparr>"
    by (rule update_rules_yaml_result)
  let ?rules' = "kept @ (if asns \<noteq> [] then [rule_block asns] else [])"
  let ?kvs' = "dict_set kvs (PStr ''rules'') (PList ?rules')"
  have kept: "kept = filter (\<lambda>r. \<not> names_asn r) rules"
    using k by (rule keep_rules_filter)
  have 1: "rules_yaml st' = Inr (PDict ?kvs')"
    using s by simp
  have 2: "map_of ?kvs' (PStr ''rules'') = Some (PList ?rules')"
    by (rule map_of_dict_set_same)
  have 3: "filter (\<lambda>r. \<not> names_asn r) ?rules' = filter (\<lambda>r. \<not> names_asn r) rules"
    by (simp add: kept names_asn_rule_block)
  have 4: "map fst ?kvs' = map fst kvs"
    using o by (rule dict_set_keys)
  have 5: "filter (\<lambda>kv. fst kv \<noteq> PStr ''rules'') ?kvs' =
             filter (\<lambda>kv. fst kv \<noteq> PStr ''rules'') kvs"
    by (rule dict_set_others)
  have 6: "?rules' = filter (\<lambda>r. \<not> names_asn r) rules @
                      (if asns = [] then [] else [rule_block asns])"
    by (simp add: kept)
  have 7: "sent st' = sent st"
    using s by (simp add: print_def)
  from d o i 1 2 3 4 5 6 7 show ?thesis by blast
qed

theorem update_frame_witness:
  "update_rules_yaml [64512, 64513] st_example = (Inr (), st_updated) \<and>
   (\<exists>kvs kvs'. rules_yaml st_example = Inr (PDict kvs) \<and>
      rules_yaml st_updated = Inr (PDict kvs') \<and>
      map fst kvs' = map fst kvs \<and>
      filter (\<lambda>kv. fst kv \<noteq> PStr ''rules'') kvs' =
        filter (\<lambda>kv. fst kv \<noteq> PStr ''rules'') kvs)"
  using update_frame [OF update_example] update_example by blast

section \<open>Properties of the ruleset cleanup client\<close>

lemma well_formed_dict: "well_formed rs \<Longrightarrow> \<exists>kvs. rs = PDict kvs"
  by (cases rs) (auto simp: well_formed_def)

lemma custom_rulesets_filter:
  "\<forall>rs \<in> set rss. well_formed rs \<Longrightarrow> custom_rulesets rss = Inr (filter is_custom_zone rss)"
proof (induction rss)
  case Nil
  then show ?case by simp
next
  case (Cons rs rss)
  then obtain kvs where "rs = PDict kvs"
    using well_formed_dict by auto
  with Cons show ?case
    by (auto simp: is_custom_zone_def split: option.splits)
qed

lemma delete_ruleset_sent:
  assumes "server env (sent st) (DELETE_ruleset (bearer env) zone_id i) = Inr r"
  shows "\<exists>ok st'. delete_ruleset env zone_id i st = (Inr ok, st') \<and>
           sent st' = sent st @ [DELETE_ruleset (bearer env) zone_id i]"
  using assms by (auto simp: delete_ruleset_def http_def print_def)

lemma delete_managed_sent:
  assumes del: "\<And>h i. \<exists>r. server env h (DELETE_ruleset (bearer env) zone_id i) = Inr r"
    and wf: "\<forall>rs \<in> set custom. well_formed rs"
  shows "\<exists>st'. delete_managed env zone_id custom st = (Inr (), st') \<and>
           sent st' = sent st @ concat (map (delete_of env zone_id) (filter name_matches custom))"
  using wf
proof (induction custom arbitrary: st)
  case Nil
  then show ?case by simp
next
  case (Cons rs custom)
  from Cons.prems obtain name i where
    n: "py_getitem rs ''name'' = Inr (PStr name)" and i: "py_getitem rs ''id'' = Inr i"
    by (auto simp: well_formed_def split: sum.splits pyval.splits)
  let ?st1 = "print (L_ruleset (PStr name) i) st"
  have m: "list_ex (\<lambda>keyword. str_contains keyword (lower name)) managed_keywords
             = name_matches rs"
    using n by (simp add: name_matches_def managed_keywords_def)
  have e: "delete_of env zone_id rs = [DELETE_ruleset (bearer env) zone_id i]"
    using i by (simp add: delete_of_def)
  show ?case
  proof (cases "name_matches rs")
    case True
    let ?st2 = "print (L_deleting (PStr name)) ?st1"
    from del obtain r where
      r: "server env (sent ?st2) (DELETE_ruleset (bearer env) zone_id i) = Inr r"
      by blast
    from delete_ruleset_sent [OF r] obtain ok st3 where
      d: "delete_ruleset env zone_id i ?st2 = (Inr ok, st3)" and
      s3: "sent st3 = sent st @ [DELETE_ruleset (bearer env) zone_id i]"
      by (auto simp: print_def)
    from Cons.IH [of st3] Cons.prems obtain st' where
      "delete_managed env zone_id custom st3 = (Inr (), st')"
      "sent st' = sent st3 @ concat (map (delete_of env zone_id) (filter name_matches custom))"
      by auto
    with True n i d s3 m e show ?thesis
      by simp
  next
    case False
    let ?st2 = "print (L_skipping (PStr name)) ?st1"
    from Cons.IH [of ?st2] Cons.prems obtain st' where
      "delete_managed env zone_id custom ?st2 = (Inr (), st')"
      "sent st' = sent ?st2 @ concat (map (delete_of env zone_id) (filter name_matches custom))"
      by auto
    with False n i m show ?thesis
      by (simp add: print_def)
  qed
qed

lemma cleanup_zone_sent:
  assumes tok: "CLOUDFLARE_API_TOKEN env = Some token" "token \<noteq> []"
    and listing: "\<And>h. \<exists>r body. server env h (GET_rulesets (bearer env) zone_id) = Inr r \<and>
        status_code r = 200 \<and> json r = Inr body \<and>
        py_get body ''result'' (PList []) = Inr (PList rss)"
    and wf: "\<forall>rs \<in> set rss. well_formed rs"
    and del: "\<And>h i. \<exists>r. server env h (DELETE_ruleset (bearer env) zone_id i) = Inr r"
  shows "\<exists>st'. cleanup_zone env zone_name zone_id st = (Inr (), st') \<and>
           sent st' = sent st @ GET_rulesets (bearer env) zone_id #
             concat (map (delete_of env zone_id) (filter deletable rss))"
proof -
  let ?st0 = "print (L_zone zone_name zone_id) st"
  from listing obtain r body where
    r: "server env (sent ?st0) (GET_rulesets (bearer env) zone_id) = Inr r"
       "status_code r = 200" "json r = Inr body"
       "py_get body ''result'' (PList []) = Inr (PList rss)"
    by blast
  let ?st1 = "?st0\<lparr>sent := sent ?st0 @ [GET_rulesets (bearer env) zone_id]\<rparr>"
  have g: "get_zone_rulesets env zone_id ?st0 = (Inr (PList rss), ?st1)"
    using tok r by (simp add: get_zone_rulesets_def http_def)
  have c: "custom_rulesets rss = Inr (filter is_custom_zone rss)"
    using wf by (rule custom_rulesets_filter)
  have f: "filter name_matches (filter is_custom_zone rss) = filter deletable rss"
    by (simp add: deletable_def [abs_def])
  have s1: "sent ?st1 = sent st @ [GET_rulesets (bearer env) zone_id]"
    by (simp add: print_def)
  show ?thesis
  proof (cases "filter is_custom_zone rss = []")
    case True
    with f have "filter deletable rss = []" by simp
    with True g c s1 show ?thesis
      by (simp add: cleanup_zone_def print_def)
  next
    case False
    let ?st2 = "print (L_found (length (filter is_custom_zone rss))) ?st1"
    from wf have "\<forall>rs \<in> set (filter is_custom_zone rss). well_formed rs" by simp
    from delete_managed_sent [OF del this, of ?st2] obtain st' where
      "delete_managed env zone_id (filter is_custom_zone rss) ?st2 = (Inr (), st')"
      "sent st' = sent ?st2 @
         concat (map (delete_of env zone_id) (filter name_matches (filter is_custom_zone rss)))"
      by blast
    with False g c f show ?thesis
      by (simp add: cleanup_zone_def print_def)
  qed
qed

lemma cleanup_zones_sent:
  assumes tok: "CLOUDFLARE_API_TOKEN env = Some token" "token \<noteq> []"
    and listing: "\<forall>zone_id \<in> snd ` set zones. \<forall>h.
        \<exists>r body. server env h (GET_rulesets (bearer env) zone_id) = Inr r \<and>
        status_code r = 200 \<and> json r = Inr body \<and>
        py_get body ''result'' (PList []) = Inr (PList (listing zone_id))"
    and wf: "\<forall>zone_id \<in> snd ` set zones. \<forall>rs \<in> set (listing zone_id). well_formed rs"
    and del: "\<forall>h zone_id i. \<exists>r. server env h (DELETE_ruleset (bearer env) zone_id i) = Inr r"
  shows "\<exists>st'. cleanup_zones env zones st = (Inr (), st') \<and>
           sent st' = sent st @ expected_requests env listing zones"
  using listing wf
proof (induction zones arbitrary: st)
  case Nil
  then show ?case by (simp add: expected_requests_def)
next
  case (Cons z zones)
  obtain zone_name zone_id where z: "z = (zone_name, zone_id)" by (cases z)
  have l: "\<And>h. \<exists>r body. server env h (GET_rulesets (bearer env) zone_id) = Inr r \<and>
        status_code r = 200 \<and> json r = Inr body \<and>
        py_get body ''result'' (PList []) = Inr (PList (listing zone_id))"
    using Cons.prems(1) z by simp
  have w: "\<forall>rs \<in> set (listing zone_id). well_formed rs"
    using Cons.prems(2) z by simp
  have d: "\<And>h i. \<exists>r. server env h (DELETE_ruleset (bearer env) zone_id i) = Inr r"
    using del by blast
  have "\<exists>st1. cleanup_zone env zone_name zone_id st = (Inr (), st1) \<and>
       sent st1 = sent st @ GET_rulesets (bearer env) zone_id #
             concat (map (delete_of env zone_id) (filter deletable (listing zone_id)))"
    using tok l w d by (rule cleanup_zone_sent)
  then obtain st1 where
    1: "cleanup_zone env zone_name zone_id st = (Inr (), st1)"
       "sent st1 = sent st @ GET_rulesets (bearer env) zone_id #
             concat (map (delete_of env zone_id) (filter deletable (listing zone_id)))"
    by blast
  have "\<exists>st'. cleanup_zones env zones st1 = (Inr (), st') \<and>
           sent st' = sent st1 @ expected_requests env listing zones"
  proof (rule Cons.IH)
    show "\<forall>zone_id \<in> snd ` set zones. \<forall>h.
        \<exists>r body. server env h (GET_rulesets (bearer env) zone_id) = Inr r \<and>
        status_code r = 200 \<and> json r = Inr body \<and>
        py_get body ''result'' (PList []) = Inr (PList (listing zone_id))"
      using Cons.prems(1) by simp
    show "\<forall>zone_id \<in> snd ` set zones. \<forall>rs \<in> set (listing zone_id). well_formed rs"
      using Cons.prems(2) by simp
  qed
  then obtain st' where
    2: "cleanup_zones env zones st1 = (Inr (), st')"
       "sent st' = sent st1 @ expected_requests env listing zones"
    by blast
  from 1 2 z show ?case
    by (simp add: expected_requests_def)
qed

text \<open>
  Claim C1. Take a run with a management token, in which every zone's listing answers 200
  with a list of well-formed rulesets and every DELETE gets a response. Then the cleanup
  completes, and the requests it sends are, zone by zone, the listing followed by one
  DELETE for each ruleset of the listing that is deletable, and for no other: a ruleset
  gets a DELETE exactly when its phase is the custom firewall phase, its kind is zone, and
  its lowercased name contains \<^verbatim>\<open>terraform\<close>, \<^verbatim>\<open>waf\<close> or \<^verbatim>\<open>managed\<close>.
\<close>

theorem cleanup_deletes_exactly_managed:
  assumes tok: "CLOUDFLARE_API_TOKEN env = Some token" "token \<noteq> []"
    and listing: "\<forall>zone_id \<in> snd ` set ZONE_IDS. \<forall>h.
        \<exists>r body. server env h (GET_rulesets (bearer env) zone_id) = Inr r \<and>
        status_code r = 200 \<and> json r = Inr body \<and>
        py_get body ''result'' (PList []) = Inr (PList (listing zone_id))"
    and wf: "\<forall>zone_id \<in> snd ` set ZONE_IDS. \<forall>rs \<in> set (listing zone_id). well_formed rs"
    and del: "\<forall>h zone_id i. \<exists>r. server env h (DELETE_ruleset (bearer env) zone_id i) = Inr r"
  shows "\<exists>st'. cleanup_existing_rulesets env st = (Inr (), st') \<and>
           sent st' = sent st @ expected_requests env listing ZONE_IDS"
proof -
  have "\<exists>st'. cleanup_zones env ZONE_IDS (print L_cleaning_up st) = (Inr (), st') \<and>
          sent st' = sent (print L_cleaning_up st) @ expected_requests env listing ZONE_IDS"
    using tok listing wf del by (rule cleanup_zones_sent)
  with tok show ?thesis
    by (auto simp: cleanup_existing_rulesets_def print_def)
qed

lemma deletable_examples:
  "deletable (ruleset ''a1'' ''Terraform Managed WAF'')"
  "\<not> deletable (ruleset ''b2'' ''Custom Rule'')"
  by (simp_all add: deletable_def is_custom_zone_def name_matches_def ruleset_def
      lower_def lower_char_def)

theorem cleanup_deletes_exactly_managed_witness:
  "deletable (ruleset ''a1'' ''Terraform Managed WAF'') \<and>
   \<not> deletable (ruleset ''b2'' ''Custom Rule'') \<and>
   (\<exists>st'. cleanup_existing_rulesets (env_cleanup server_example) st_example = (Inr (), st') \<and>
      sent st' =
        [GET_rulesets ''Bearer token'' ''1791cd65881eb3caf7d1a3cb315342a5'',
         DELETE_ruleset ''Bearer token'' ''1791cd65881eb3caf7d1a3cb315342a5'' (PStr ''a1''),
         GET_rulesets ''Bearer token'' ''42e0fad5233017cf842727c41ce3ef89''])"
proof -
  let ?env = "env_cleanup server_example"
  have t: "CLOUDFLARE_API_TOKEN ?env = Some ''token''" "''token'' \<noteq> []"
    by (simp_all add: env_cleanup_def)
  have l: "\<forall>zone_id \<in> snd ` set ZONE_IDS. \<forall>h.
        \<exists>r body. server ?env h (GET_rulesets (bearer ?env) zone_id) = Inr r \<and>
        status_code r = 200 \<and> json r = Inr body \<and>
        py_get body ''result'' (PList []) = Inr (PList (listing_example zone_id))"
    by (simp add: env_cleanup_def server_example_def reply_def)
  have w: "\<forall>zone_id \<in> snd ` set ZONE_IDS. \<forall>rs \<in> set (listing_example zone_id). well_formed rs"
    by (simp add: ZONE_IDS_def listing_example_def well_formed_def ruleset_def)
  have d: "\<forall>h zone_id i. \<exists>r. server ?env h (DELETE_ruleset (bearer ?env) zone_id i) = Inr r"
    by (simp add: env_cleanup_def server_example_def)
  have e: "expected_requests ?env listing_example ZONE_IDS =
        [GET_rulesets ''Bearer token'' ''1791cd65881eb3caf7d1a3cb315342a5'',
         DELETE_ruleset ''Bearer token'' ''1791cd65881eb3caf7d1a3cb315342a5'' (PStr ''a1''),
         GET_rulesets ''Bearer token'' ''42e0fad5233017cf842727c41ce3ef89'']"
    by (simp add: expected_requests_def ZONE_IDS_def listing_example_def deletable_examples
        delete_of_def) (simp add: ruleset_def bearer_def env_cleanup_def)
  from cleanup_deletes_exactly_managed [OF t l w d, of st_example] e deletable_examples
  show ?thesis
    by (simp add: st_example_def)
qed

text \<open>
  Claim C8, as amended. With a management token configured: when the listing of a zone
  answers with a status other than 200, the cleanup of that zone prints the status, finds
  no ruleset, sends no DELETE and completes, and the loop over the zones goes on with the
  remaining zones from the state so reached; when the listing call raises an exception (a
  transport failure), the exception is not caught: it leaves the cleanup of that zone and
  the loop over the zones, and no further request is sent.
\<close>

theorem listing_failure_handling:
  assumes "CLOUDFLARE_API_TOKEN env = Some token" and "token \<noteq> []"
  shows "(server env (sent st) (GET_rulesets (bearer env) zone_id) = Inr r \<and>
          status_code r \<noteq> 200 \<longrightarrow>
            cleanup_zone env zone_name zone_id st =
              (Inr (),
               st\<lparr>sent := sent st @ [GET_rulesets (bearer env) zone_id],
                   printed := printed st @
                     [L_zone zone_name zone_id, L_fetch_error zone_id (status_code r),
                      L_no_custom]\<rparr>) \<and>
            cleanup_zones env ((zone_name, zone_id) # zones) st =
              cleanup_zones env zones
                (st\<lparr>sent := sent st @ [GET_rulesets (bearer env) zone_id],
                    printed := printed st @
                      [L_zone zone_name zone_id, L_fetch_error zone_id (status_code r),
                       L_no_custom]\<rparr>)) \<and>
         (server env (sent st) (GET_rulesets (bearer env) zone_id) = Inl e \<longrightarrow>
            fst (cleanup_zone env zone_name zone_id st) = Inl e \<and>
            fst (cleanup_zones env ((zone_name, zone_id) # zones) st) = Inl e \<and>
            sent (snd (cleanup_zones env ((zone_name, zone_id) # zones) st)) =
              sent st @ [GET_rulesets (bearer env) zone_id])"
  using assms
  by (simp add: cleanup_zone_def get_zone_rulesets_def http_def print_def)

theorem listing_failure_handling_witness:
  "cleanup_zone (env_cleanup server_unavailable)
     ''homieyeng.top'' ''1791cd65881eb3caf7d1a3cb315342a5'' st_example =
     (Inr (),
      st_example\<lparr>sent := [GET_rulesets ''Bearer token'' ''1791cd65881eb3caf7d1a3cb315342a5''],
        printed := [L_zone ''homieyeng.top'' ''1791cd65881eb3caf7d1a3cb315342a5'',
                    L_fetch_error ''1791cd65881eb3caf7d1a3cb315342a5'' 503, L_no_custom]\<rparr>) \<and>
   cleanup_zones (env_cleanup server_unavailable) ZONE_IDS st_example =
     (Inr (),
      st_example\<lparr>sent := [GET_rulesets ''Bearer token'' ''1791cd65881eb3caf7d1a3cb315342a5'',
                          GET_rulesets ''Bearer token'' ''42e0fad5233017cf842727c41ce3ef89''],
        printed := [L_zone ''homieyeng.top'' ''1791cd65881eb3caf7d1a3cb315342a5'',
                    L_fetch_error ''1791cd65881eb3caf7d1a3cb315342a5'' 503, L_no_custom,
                    L_zone ''homieyang.dpdns.org'' ''42e0fad5233017cf842727c41ce3ef89'',
                    L_fetch_error ''42e0fad5233017cf842727c41ce3ef89'' 503, L_no_custom]\<rparr>) \<and>
   fst (cleanup_zone (env_cleanup server_down)
     ''homieyeng.top'' ''1791cd65881eb3caf7d1a3cb315342a5'' st_example) = Inl RequestException"
proof -
  let ?z = "''1791cd65881eb3caf7d1a3cb315342a5''"
  let ?z2 = "''42e0fad5233017cf842727c41ce3ef89''"
  let ?u = "env_cleanup server_unavailable"
  let ?st1 = "st_example\<lparr>sent := sent st_example @ [GET_rulesets (bearer ?u) ?z],
        printed := printed st_example @
          [L_zone ''homieyeng.top'' ?z,
           L_fetch_error ?z (status_code (reply 503 (Inl ValueError))), L_no_custom]\<rparr>"
  have t: "CLOUDFLARE_API_TOKEN ?u = Some ''token''"
    "CLOUDFLARE_API_TOKEN (env_cleanup server_down) = Some ''token''" "''token'' \<noteq> []"
    by (simp_all add: env_cleanup_def)
  have a: "server ?u (sent st_example) (GET_rulesets (bearer ?u) ?z)
             = Inr (reply 503 (Inl ValueError)) \<and>
           status_code (reply 503 (Inl ValueError)) \<noteq> 200"
    by (simp add: env_cleanup_def server_unavailable_def reply_def)
  have a2: "server ?u (sent ?st1) (GET_rulesets (bearer ?u) ?z2)
             = Inr (reply 503 (Inl ValueError)) \<and>
           status_code (reply 503 (Inl ValueError)) \<noteq> 200"
    by (simp add: env_cleanup_def server_unavailable_def reply_def)
  have b: "server (env_cleanup server_down) (sent st_example)
             (GET_rulesets (bearer (env_cleanup server_down)) ?z) = Inl RequestException"
    by (simp add: env_cleanup_def server_down_def)
  from listing_failure_handling [OF t(1) t(3), where st = st_example and zone_id = ?z
      and r = "reply 503 (Inl ValueError)" and zone_name = "''homieyeng.top''"
      and zones = "[(''homieyang.dpdns.org'', ?z2)]"] a
    listing_failure_handling [OF t(1) t(3), where st = ?st1 and zone_id = ?z2
      and r = "reply 503 (Inl ValueError)" and zone_name = "''homieyang.dpdns.org''"
      and zones = "[]"] a2
    listing_failure_handling [OF t(2) t(3), where st = st_example and zone_id = ?z
      and e = RequestException and zone_name = "''homieyeng.top''"] b
  show ?thesis
    by (simp add: st_example_def bearer_def env_cleanup_def reply_def ZONE_IDS_def)
qed

text \<open>
  The claim as first stated fails: with a token configured and a remote side whose every
  call raises \<^verbatim>\<open>RequestException\<close>, the exception raised by the first listing leaves
  \<^verbatim>\<open>cleanup_existing_rulesets\<close>.
\<close>

theorem listing_transport_failure_propagates:
  "fst (cleanup_existing_rulesets (env_cleanup server_down) st_example) = Inl RequestException"
  by (simp add: cleanup_existing_rulesets_def env_cleanup_def server_down_def ZONE_IDS_def
      cleanup_zone_def get_zone_rulesets_def http_def print_def st_example_def)

end
